theory Spec2Isabelle
  imports Main "HOL-Library.Multiset" "HOL-Library.Char_ord" "HOL-Library.List_Lexorder"
    "HOL-Library.AList"
begin

section \<open>Data model (types.ts)\<close>

datatype TestStatus = NotStarted | Passed | Failed | Skipped

datatype BugSeverity = Critical | High | Medium | Low

datatype BugStatus = Open | InProgress | Fixed | WontFix

datatype Category = UI | Functionality | Performance | Integration

text \<open>
  A parsed JSON value, as \<^verbatim>\<open>JSON.parse\<close> returns it. An object is the list of its own
  properties; a number's value is never inspected by the code modelled here.
\<close>

datatype json =
    JNull
  | JBool bool
  | JNum int
  | JStr string
  | JArr "json list"
  | JObj "(string \<times> json) list"

text \<open>
  Optional fields (\<^verbatim>\<open>notes?: string\<close>) are options: \<open>None\<close> is \<^verbatim>\<open>undefined\<close>.
  Timestamps are the integer milliseconds of \<^verbatim>\<open>Date.now()\<close>.
\<close>

record TestItem =
  ti_id :: string
  ti_screen :: string
  ti_category :: Category
  ti_description :: string
  ti_status :: TestStatus
  ti_notes :: "string option"
  ti_testedAt :: "int option"

record TestChecklist =
  cl_screen :: string
  cl_items :: "TestItem list"

record BugReport =
  bug_id :: string
  bug_title :: string
  bug_description :: string
  bug_severity :: BugSeverity
  bug_status :: BugStatus
  bug_screen :: string
  bug_stepsToReproduce :: "string list"
  bug_expectedBehavior :: string
  bug_actualBehavior :: string
  bug_screenshot :: "string option"
  bug_consoleErrors :: "string option"
  bug_sessionMetadata :: "(string \<times> json) list option"
  bug_reportedAt :: int
  bug_reportedBy :: string
  bug_fixedAt :: "int option"
  bug_fixedIn :: "string option"

record TestSession =
  ts_id :: string
  ts_name :: string
  ts_startedAt :: int
  ts_completedAt :: "int option"
  ts_totalTests :: nat
  ts_passedTests :: nat
  ts_failedTests :: nat
  ts_skippedTests :: nat
  ts_bugsFound :: "string list"
  ts_notes :: "string option"
  ts_tester :: string

record QAState =
  isOpen :: bool
  currentSession :: "TestSession option"
  testSessions :: "TestSession list"
  checklists :: "TestChecklist list"
  bugs :: "BugReport list"

section \<open>The checklist store (QAContext.tsx)\<close>

text \<open>
  Every operation of the provider is \<^verbatim>\<open>setState((prev) => ...)\<close>: a pure function from
  the previous state to the next one. The readings of \<^verbatim>\<open>Date.now()\<close> are parameters;
  where the source reads the clock inside a \<^verbatim>\<open>map\<close> callback, one reading serves every
  matching element of that call.
\<close>

text \<open>\<^verbatim>\<open>checklists.flatMap((c) => c.items)\<close>\<close>

definition allTests :: "TestChecklist list \<Rightarrow> TestItem list" where
  "allTests cls = concat (map cl_items cls)"

text \<open>The decimal text of an integer, as a template literal renders \<^verbatim>\<open>Date.now()\<close>.\<close>

fun showNat :: "nat \<Rightarrow> string" where
  "showNat n =
     (if n < 10 then [''0123456789'' ! n]
      else showNat (n div 10) @ [''0123456789'' ! (n mod 10)])"

declare showNat.simps [simp del]

definition showInt :: "int \<Rightarrow> string" where
  "showInt i = (if i < 0 then CHR ''-'' # showNat (nat (- i)) else showNat (nat i))"

subsection \<open>Test management\<close>

definition stampItem :: "string \<Rightarrow> TestStatus \<Rightarrow> string option \<Rightarrow> int \<Rightarrow> TestItem \<Rightarrow> TestItem" where
  "stampItem testId st nts now item =
     (if ti_id item = testId
      then item\<lparr>ti_status := st, ti_notes := nts, ti_testedAt := Some now\<rparr>
      else item)"

definition countStatus :: "TestStatus \<Rightarrow> TestItem list \<Rightarrow> nat" where
  "countStatus st ts = length (filter (\<lambda>t. ti_status t = st) ts)"

definition updateTestStatus ::
    "string \<Rightarrow> TestStatus \<Rightarrow> string option \<Rightarrow> int \<Rightarrow> QAState \<Rightarrow> QAState" where
  "updateTestStatus testId st nts now prev =
     (let updatedChecklists =
            map (\<lambda>c. c\<lparr>cl_items := map (stampItem testId st nts now) (cl_items c)\<rparr>)
              (checklists prev);
          updatedSession =
            (case currentSession prev of
               None \<Rightarrow> None
             | Some sess \<Rightarrow>
                 (let ts = allTests updatedChecklists in
                  Some (sess\<lparr>ts_totalTests := length ts,
                              ts_passedTests := countStatus Passed ts,
                              ts_failedTests := countStatus Failed ts,
                              ts_skippedTests := countStatus Skipped ts\<rparr>)))
      in prev\<lparr>checklists := updatedChecklists, currentSession := updatedSession\<rparr>)"

definition addTestItem :: "TestItem \<Rightarrow> QAState \<Rightarrow> QAState" where
  "addTestItem item prev =
     (case find (\<lambda>c. cl_screen c = ti_screen item) (checklists prev) of
        Some existingChecklist \<Rightarrow>
          prev\<lparr>checklists :=
            map (\<lambda>c. if cl_screen c = ti_screen item
                      then c\<lparr>cl_items := cl_items c @ [item]\<rparr> else c)
              (checklists prev)\<rparr>
      | None \<Rightarrow>
          prev\<lparr>checklists :=
            checklists prev @ [\<lparr>cl_screen = ti_screen item, cl_items = [item]\<rparr>]\<rparr>)"

definition removeTestItem :: "string \<Rightarrow> QAState \<Rightarrow> QAState" where
  "removeTestItem testId prev =
     prev\<lparr>checklists :=
       map (\<lambda>c. c\<lparr>cl_items := filter (\<lambda>item. ti_id item \<noteq> testId) (cl_items c)\<rparr>)
         (checklists prev)\<rparr>"

subsection \<open>Bug reporting\<close>

text \<open>
  \<^verbatim>\<open>reportBug\<close> reads the clock twice, for the id and for \<^verbatim>\<open>reportedAt\<close>; the fields
  \<open>bug_id\<close> and \<open>bug_reportedAt\<close> of the argument are overwritten, as the spread
  \<^verbatim>\<open>{...bug, id, reportedAt}\<close> does.
\<close>

definition newBugId :: "int \<Rightarrow> string" where
  "newBugId now = ''bug_'' @ showInt now"

definition reportBug :: "BugReport \<Rightarrow> int \<Rightarrow> int \<Rightarrow> QAState \<Rightarrow> QAState" where
  "reportBug bug nowId nowAt prev =
     (let newBug = bug\<lparr>bug_id := newBugId nowId, bug_reportedAt := nowAt\<rparr>;
          updatedBugs = bugs prev @ [newBug];
          updatedSession =
            (case currentSession prev of
               None \<Rightarrow> None
             | Some sess \<Rightarrow> Some (sess\<lparr>ts_bugsFound := ts_bugsFound sess @ [bug_id newBug]\<rparr>))
      in prev\<lparr>bugs := updatedBugs, currentSession := updatedSession\<rparr>)"

definition restatus :: "string \<Rightarrow> BugStatus \<Rightarrow> int \<Rightarrow> BugReport \<Rightarrow> BugReport" where
  "restatus bugId st now bug =
     (if bug_id bug = bugId
      then bug\<lparr>bug_status := st,
               bug_fixedAt := (if st = Fixed then Some now else bug_fixedAt bug)\<rparr>
      else bug)"

definition updateBugStatus :: "string \<Rightarrow> BugStatus \<Rightarrow> int \<Rightarrow> QAState \<Rightarrow> QAState" where
  "updateBugStatus bugId st now prev = prev\<lparr>bugs := map (restatus bugId st now) (bugs prev)\<rparr>"

definition deleteBug :: "string \<Rightarrow> QAState \<Rightarrow> QAState" where
  "deleteBug bugId prev =
     prev\<lparr>bugs := filter (\<lambda>bug. bug_id bug \<noteq> bugId) (bugs prev),
          currentSession :=
            (case currentSession prev of
               Some sess \<Rightarrow>
                 Some (sess\<lparr>ts_bugsFound := filter (\<lambda>i. i \<noteq> bugId) (ts_bugsFound sess)\<rparr>)
             | None \<Rightarrow> None)\<rparr>"

subsection \<open>Test sessions\<close>

definition resetItem :: "TestItem \<Rightarrow> TestItem" where
  "resetItem item = item\<lparr>ti_status := NotStarted, ti_notes := None, ti_testedAt := None\<rparr>"

definition startTestSession :: "string \<Rightarrow> string \<Rightarrow> int \<Rightarrow> int \<Rightarrow> QAState \<Rightarrow> QAState" where
  "startTestSession name tester nowId nowAt prev =
     (let resetChecklists =
            map (\<lambda>c. c\<lparr>cl_items := map resetItem (cl_items c)\<rparr>) (checklists prev);
          ts = allTests resetChecklists;
          newSession =
            \<lparr>ts_id = ''session_'' @ showInt nowId,
             ts_name = name,
             ts_startedAt = nowAt,
             ts_completedAt = None,
             ts_totalTests = length ts,
             ts_passedTests = 0,
             ts_failedTests = 0,
             ts_skippedTests = 0,
             ts_bugsFound = [],
             ts_notes = None,
             ts_tester = tester\<rparr>
      in prev\<lparr>checklists := resetChecklists, currentSession := Some newSession\<rparr>)"

definition completeTestSession :: "string option \<Rightarrow> int \<Rightarrow> QAState \<Rightarrow> QAState" where
  "completeTestSession nts now prev =
     (case currentSession prev of
        None \<Rightarrow> prev
      | Some sess \<Rightarrow>
          prev\<lparr>currentSession := None,
               testSessions :=
                 testSessions prev @ [sess\<lparr>ts_completedAt := Some now, ts_notes := nts\<rparr>]\<rparr>)"

definition deleteSession :: "string \<Rightarrow> QAState \<Rightarrow> QAState" where
  "deleteSession sessionId prev =
     prev\<lparr>testSessions := filter (\<lambda>session. ts_id session \<noteq> sessionId) (testSessions prev)\<rparr>"

subsection \<open>Reconciliation on load\<close>

text \<open>
  \<^verbatim>\<open>savedResults\<close> is the \<^verbatim>\<open>Map\<close> built by the two nested \<^verbatim>\<open>forEach\<close> loops: a later
  \<^verbatim>\<open>set\<close> for the same id replaces the earlier one. The guard
  \<^verbatim>\<open>item.status !== 'not_started' || item.notes || item.testedAt\<close> tests truthiness: an
  absent or empty string and an absent or zero number are falsy.
\<close>

record SavedResult =
  sr_status :: TestStatus
  sr_notes :: "string option"
  sr_testedAt :: "int option"

definition truthyString :: "string option \<Rightarrow> bool" where
  "truthyString v = (case v of None \<Rightarrow> False | Some s \<Rightarrow> s \<noteq> [])"

definition truthyNumber :: "int option \<Rightarrow> bool" where
  "truthyNumber v = (case v of None \<Rightarrow> False | Some n \<Rightarrow> n \<noteq> 0)"

definition hasResult :: "TestItem \<Rightarrow> bool" where
  "hasResult item \<longleftrightarrow>
     ti_status item \<noteq> NotStarted \<or> truthyString (ti_notes item) \<or>
     truthyNumber (ti_testedAt item)"

definition recordResult ::
    "(string \<rightharpoonup> SavedResult) \<Rightarrow> TestItem \<Rightarrow> (string \<rightharpoonup> SavedResult)" where
  "recordResult m item =
     (if hasResult item
      then m(ti_id item \<mapsto>
             \<lparr>sr_status = ti_status item, sr_notes = ti_notes item,
              sr_testedAt = ti_testedAt item\<rparr>)
      else m)"

definition savedResults :: "TestChecklist list \<Rightarrow> (string \<rightharpoonup> SavedResult)" where
  "savedResults savedChecklists =
     foldl (\<lambda>m checklist. foldl recordResult m (cl_items checklist)) Map.empty savedChecklists"

text \<open>\<^verbatim>\<open>{ ...item, ...saved }\<close>: the three keys of \<^verbatim>\<open>saved\<close> overwrite the item's, also when
  their value is \<^verbatim>\<open>undefined\<close>.\<close>

definition applySaved :: "(string \<rightharpoonup> SavedResult) \<Rightarrow> TestItem \<Rightarrow> TestItem" where
  "applySaved m item =
     (case m (ti_id item) of
        Some saved \<Rightarrow>
          item\<lparr>ti_status := sr_status saved, ti_notes := sr_notes saved,
               ti_testedAt := sr_testedAt saved\<rparr>
      | None \<Rightarrow> item)"

definition mergeChecklists ::
    "TestChecklist list \<Rightarrow> TestChecklist list \<Rightarrow> TestChecklist list" where
  "mergeChecklists savedChecklists defaultChecklists =
     map (\<lambda>checklist.
            checklist\<lparr>cl_items :=
              map (applySaved (savedResults savedChecklists)) (cl_items checklist)\<rparr>)
       defaultChecklists"



section \<open>Screen names (routerParser.ts)\<close>

text \<open>
  Strings are lists of characters. \<^verbatim>\<open>String.prototype.toUpperCase\<close> belongs to the
  platform: it is the parameter \<open>toUpperCase\<close> of the model.
\<close>

text \<open>The class \<^verbatim>\<open>\w\<close> of a regular expression without the unicode flag.\<close>

definition isWordChar :: "char \<Rightarrow> bool" where
  "isWordChar c \<longleftrightarrow>
     c \<in> set ''abcdefghijklmnopqrstuvwxyzABCDEFGHIJKLMNOPQRSTUVWXYZ0123456789_''"

text \<open>\<^verbatim>\<open>.replace(/^\//, '')\<close>\<close>

definition stripLeadingSlash :: "string \<Rightarrow> string" where
  "stripLeadingSlash s = (case s of c # cs \<Rightarrow> if c = CHR ''/'' then cs else s | [] \<Rightarrow> [])"

text \<open>
  \<^verbatim>\<open>.replace(/\/:[\w]+/g, '')\<close>: scanning from the left, a slash followed by a colon and
  at least one word character is removed together with the longest run of word
  characters after the colon; the scan goes on behind the match.
\<close>

definition startsDynamic :: "string \<Rightarrow> bool" where
  "startsDynamic cs =
     (case cs of c1 # c2 # _ \<Rightarrow> c1 = CHR '':'' \<and> isWordChar c2 | _ \<Rightarrow> False)"

function removeDynamic :: "string \<Rightarrow> string" where
  "removeDynamic [] = []"
| "removeDynamic (c # cs) =
     (if c = CHR ''/'' \<and> startsDynamic cs
      then removeDynamic (dropWhile isWordChar (tl cs))
      else c # removeDynamic cs)"
  by pat_completeness auto
termination
proof (relation "measure length")
  show "wf (measure length)" by simp
next
  fix c :: char and cs :: string
  have "length (dropWhile isWordChar (tl cs)) \<le> length (tl cs)" by (rule length_dropWhile_le)
  then show "(dropWhile isWordChar (tl cs), c # cs) \<in> measure length" by simp
next
  fix c :: char and cs :: string
  show "(cs, c # cs) \<in> measure length" by simp
qed

text \<open>\<^verbatim>\<open>.replace(/\//g, '_')\<close> and \<^verbatim>\<open>.replace(/-/g, '_')\<close>\<close>

definition replaceChar :: "char \<Rightarrow> char \<Rightarrow> string \<Rightarrow> string" where
  "replaceChar a b s = map (\<lambda>c. if c = a then b else c) s"

definition routePathToScreenName :: "(string \<Rightarrow> string) \<Rightarrow> string \<Rightarrow> string" where
  "routePathToScreenName toUpperCase routePath =
     (let name =
            toUpperCase (replaceChar CHR ''-'' CHR ''_'' (replaceChar CHR ''/'' CHR ''_''
              (removeDynamic (stripLeadingSlash routePath))))
      in if name = [] then ''HOME''
         else if CHR '':'' \<in> set routePath then name @ ''_DETAIL''
         else name)"

section \<open>The persistence adapter (qaStorage.ts)\<close>

text \<open>
  The platform is a parameter: \<open>getItem\<close> is \<^verbatim>\<open>localStorage.getItem\<close> (it may throw, or
  return \<^verbatim>\<open>null\<close>, here \<open>None\<close>), \<open>parse\<close> is \<^verbatim>\<open>JSON.parse\<close>, \<open>stringify\<close> is
  \<^verbatim>\<open>JSON.stringify\<close>, and \<open>refuses\<close> tells whether \<^verbatim>\<open>localStorage.setItem\<close> throws for a
  value. A thrown exception is the left summand, so that each \<^verbatim>\<open>try\<close>/\<^verbatim>\<open>catch\<close>
  of the source is a case distinction of the model.
\<close>

datatype jsError = QuotaExceededError | SecurityError | SyntaxError | TypeError

text \<open>\<^verbatim>\<open>typeof parsed === 'object'\<close> holds of objects, arrays and \<^verbatim>\<open>null\<close>.\<close>

definition typeofObject :: "json \<Rightarrow> bool" where
  "typeofObject v = (case v of JNull \<Rightarrow> True | JArr _ \<Rightarrow> True | JObj _ \<Rightarrow> True | _ \<Rightarrow> False)"

text \<open>
  Reading a property: of \<^verbatim>\<open>null\<close> it throws a TypeError; of an object it gives the own
  property of that name or \<^verbatim>\<open>undefined\<close>; an array has none of the four names the
  source reads.
\<close>

definition getProp :: "json \<Rightarrow> string \<Rightarrow> jsError + json option" where
  "getProp v k =
     (case v of
        JNull \<Rightarrow> Inl TypeError
      | JObj props \<Rightarrow> Inr (map_of props k)
      | _ \<Rightarrow> Inr None)"

definition isBoolean :: "json option \<Rightarrow> bool" where
  "isBoolean p = (case p of Some (JBool _) \<Rightarrow> True | _ \<Rightarrow> False)"

definition isArray :: "json option \<Rightarrow> bool" where
  "isArray p = (case p of Some (JArr _) \<Rightarrow> True | _ \<Rightarrow> False)"

text \<open>The condition of the \<^verbatim>\<open>if\<close>, evaluated from the left as \<^verbatim>\<open>&&\<close> does.\<close>

definition validStructure :: "json \<Rightarrow> jsError + bool" where
  "validStructure parsed =
     (if \<not> typeofObject parsed then Inr False
      else case getProp parsed ''isOpen'' of
        Inl err \<Rightarrow> Inl err
      | Inr p1 \<Rightarrow>
          if \<not> isBoolean p1 then Inr False
          else case getProp parsed ''testSessions'' of
            Inl err \<Rightarrow> Inl err
          | Inr p2 \<Rightarrow>
              if \<not> isArray p2 then Inr False
              else case getProp parsed ''checklists'' of
                Inl err \<Rightarrow> Inl err
              | Inr p3 \<Rightarrow>
                  if \<not> isArray p3 then Inr False
                  else case getProp parsed ''bugs'' of
                    Inl err \<Rightarrow> Inl err
                  | Inr p4 \<Rightarrow> Inr (isArray p4))"

text \<open>The body of the \<^verbatim>\<open>try\<close> block; \<^verbatim>\<open>!stored\<close> holds of \<^verbatim>\<open>null\<close> and of the empty string.\<close>

definition loadQAState_try ::
    "(string \<Rightarrow> jsError + string option) \<Rightarrow> (string \<Rightarrow> jsError + json) \<Rightarrow> string
      \<Rightarrow> jsError + json option" where
  "loadQAState_try getItem parse storageKey =
     (case getItem storageKey of
        Inl err \<Rightarrow> Inl err
      | Inr None \<Rightarrow> Inr None
      | Inr (Some stored) \<Rightarrow>
          if stored = [] then Inr None
          else case parse stored of
            Inl err \<Rightarrow> Inl err
          | Inr parsed \<Rightarrow>
              (case validStructure parsed of
                 Inl err \<Rightarrow> Inl err
               | Inr ok \<Rightarrow> if ok then Inr (Some parsed) else Inr None))"

text \<open>The \<^verbatim>\<open>catch\<close> logs the error and returns \<^verbatim>\<open>null\<close>.\<close>

definition loadQAState ::
    "(string \<Rightarrow> jsError + string option) \<Rightarrow> (string \<Rightarrow> jsError + json) \<Rightarrow> string
      \<Rightarrow> jsError + json option" where
  "loadQAState getItem parse storageKey =
     (case loadQAState_try getItem parse storageKey of
        Inl err \<Rightarrow> Inr None
      | Inr result \<Rightarrow> Inr result)"

definition setItem ::
    "((string \<rightharpoonup> string) \<Rightarrow> string \<Rightarrow> string \<Rightarrow> jsError option) \<Rightarrow> (string \<rightharpoonup> string)
      \<Rightarrow> string \<Rightarrow> string \<Rightarrow> jsError + (string \<rightharpoonup> string)" where
  "setItem refuses store k v =
     (case refuses store k v of Some err \<Rightarrow> Inl err | None \<Rightarrow> Inr (store(k \<mapsto> v)))"

text \<open>
  \<^verbatim>\<open>[...state.testSessions].sort((a, b) => b.startedAt - a.startedAt).slice(0, 10)\<close>:
  the sort is stable and descending in \<^verbatim>\<open>startedAt\<close>.
\<close>

definition cleanedState :: "QAState \<Rightarrow> QAState" where
  "cleanedState state =
     (let sortedSessions = sort_key (\<lambda>s. - ts_startedAt s) (testSessions state);
          recentSessions = take 10 sortedSessions
      in state\<lparr>testSessions := recentSessions\<rparr>)"

definition clearOldSessions ::
    "(QAState \<Rightarrow> jsError + string) \<Rightarrow> ((string \<rightharpoonup> string) \<Rightarrow> string \<Rightarrow> string \<Rightarrow> jsError option)
      \<Rightarrow> (string \<rightharpoonup> string) \<Rightarrow> QAState \<Rightarrow> string \<Rightarrow> (string \<rightharpoonup> string)" where
  "clearOldSessions stringify refuses store state storageKey =
     (case stringify (cleanedState state) of
        Inl err \<Rightarrow> store
      | Inr serialized \<Rightarrow>
          (case setItem refuses store storageKey serialized of
             Inl err \<Rightarrow> store
           | Inr store' \<Rightarrow> store'))"

definition saveQAState ::
    "(QAState \<Rightarrow> jsError + string) \<Rightarrow> ((string \<rightharpoonup> string) \<Rightarrow> string \<Rightarrow> string \<Rightarrow> jsError option)
      \<Rightarrow> (string \<rightharpoonup> string) \<Rightarrow> QAState \<Rightarrow> string \<Rightarrow> (string \<rightharpoonup> string)" where
  "saveQAState stringify refuses store state storageKey =
     (let onError = (\<lambda>err. if err = QuotaExceededError
                            then clearOldSessions stringify refuses store state storageKey
                            else store)
      in case stringify state of
           Inl err \<Rightarrow> onError err
         | Inr serialized \<Rightarrow>
             (case setItem refuses store storageKey serialized of
                Inl err \<Rightarrow> onError err
              | Inr store' \<Rightarrow> store'))"

section \<open>The initial state of the provider (QAContext.tsx)\<close>

text \<open>
  The initializer of \<^verbatim>\<open>useState\<close> calls \<^verbatim>\<open>loadQAState\<close>, reads the stored fingerprint,
  writes the new one, and then decides. The read and the write of the fingerprint are not
  inside a \<^verbatim>\<open>try\<close>: an exception of either, or of the merge, leaves the initializer.
  What \<^verbatim>\<open>loadQAState\<close> returns is the parsed blob, used as a \<^verbatim>\<open>QAState\<close> by a cast that
  checks nothing, so the model works on the blob.
\<close>

text \<open>
  Reading a property of a value that is not \<^verbatim>\<open>null\<close>, for the names the source reads
  (none is a member of a prototype): \<open>None\<close> is \<^verbatim>\<open>undefined\<close>.
\<close>

definition propOf :: "json \<Rightarrow> string \<Rightarrow> json option" where
  "propOf v k = (case v of JObj props \<Rightarrow> map_of props k | _ \<Rightarrow> None)"

text \<open>Truthiness of a value.\<close>

definition truthy :: "json option \<Rightarrow> bool" where
  "truthy v =
     (case v of
        None \<Rightarrow> False
      | Some JNull \<Rightarrow> False
      | Some (JBool b) \<Rightarrow> b
      | Some (JNum n) \<Rightarrow> n \<noteq> 0
      | Some (JStr s) \<Rightarrow> s \<noteq> []
      | Some (JArr _) \<Rightarrow> True
      | Some (JObj _) \<Rightarrow> True)"

text \<open>
  \<^verbatim>\<open>mergeChecklists\<close> as the initializer runs it, on the checklists of the blob. The
  \<^verbatim>\<open>Map\<close> is keyed by the value of \<^verbatim>\<open>item.id\<close>, whatever it is; it is only ever looked up
  at the id of a supplied item, a string, and strings are equal as keys when they are
  equal as texts. Reading \<^verbatim>\<open>item.status\<close> of a \<^verbatim>\<open>null\<close> item throws, and so does
  \<^verbatim>\<open>checklist.items.forEach\<close> unless \<^verbatim>\<open>checklist.items\<close> is an array.
\<close>

type_synonym loadedResult = "json option \<times> json option \<times> json option"

definition recordLoadedItem ::
    "(json option \<rightharpoonup> loadedResult) \<Rightarrow> json \<Rightarrow> jsError + (json option \<rightharpoonup> loadedResult)" where
  "recordLoadedItem m item =
     (if item = JNull then Inl TypeError
      else if propOf item ''status'' \<noteq> Some (JStr ''not_started'') \<or>
              truthy (propOf item ''notes'') \<or> truthy (propOf item ''testedAt'')
      then Inr (m(propOf item ''id'' \<mapsto>
                  (propOf item ''status'', propOf item ''notes'', propOf item ''testedAt'')))
      else Inr m)"

fun recordLoadedItems ::
    "(json option \<rightharpoonup> loadedResult) \<Rightarrow> json list \<Rightarrow> jsError + (json option \<rightharpoonup> loadedResult)" where
  "recordLoadedItems m [] = Inr m"
| "recordLoadedItems m (item # items) =
     (case recordLoadedItem m item of
        Inl err \<Rightarrow> Inl err
      | Inr m' \<Rightarrow> recordLoadedItems m' items)"

definition recordLoadedChecklist ::
    "(json option \<rightharpoonup> loadedResult) \<Rightarrow> json \<Rightarrow> jsError + (json option \<rightharpoonup> loadedResult)" where
  "recordLoadedChecklist m checklist =
     (if checklist = JNull then Inl TypeError
      else case propOf checklist ''items'' of
        Some (JArr items) \<Rightarrow> recordLoadedItems m items
      | _ \<Rightarrow> Inl TypeError)"

fun recordLoadedChecklists ::
    "(json option \<rightharpoonup> loadedResult) \<Rightarrow> json list \<Rightarrow> jsError + (json option \<rightharpoonup> loadedResult)" where
  "recordLoadedChecklists m [] = Inr m"
| "recordLoadedChecklists m (checklist # rest) =
     (case recordLoadedChecklist m checklist of
        Inl err \<Rightarrow> Inl err
      | Inr m' \<Rightarrow> recordLoadedChecklists m' rest)"

text \<open>
  An item of the merged checklists is a supplied item, or a supplied item under the three
  values of a saved result (\<^verbatim>\<open>{ ...item, ...saved }\<close>), which are whatever the blob held.
\<close>

datatype checklistItem =
    Supplied TestItem
  | Overlaid TestItem "json option" "json option" "json option"

record mergedChecklist =
  mc_screen :: string
  mc_items :: "checklistItem list"

definition overlay :: "(json option \<rightharpoonup> loadedResult) \<Rightarrow> TestItem \<Rightarrow> checklistItem" where
  "overlay m item =
     (case m (Some (JStr (ti_id item))) of
        Some (st, nts, at) \<Rightarrow> Overlaid item st nts at
      | None \<Rightarrow> Supplied item)"

definition mergeLoadedChecklists ::
    "json list \<Rightarrow> TestChecklist list \<Rightarrow> jsError + mergedChecklist list" where
  "mergeLoadedChecklists savedChecklists defaultChecklists =
     (case recordLoadedChecklists Map.empty savedChecklists of
        Inl err \<Rightarrow> Inl err
      | Inr results \<Rightarrow>
          Inr (map (\<lambda>checklist.
                      \<lparr>mc_screen = cl_screen checklist,
                       mc_items = map (overlay results) (cl_items checklist)\<rparr>)
                 defaultChecklists))"










section \<open>Notions used by the properties\<close>

text \<open>The session counters agree with the items: there is a current session, and each of
  its four counters is the count taken over all checklists.\<close>

definition countersInSync :: "QAState \<Rightarrow> bool" where
  "countersInSync s =
     (case currentSession s of
        None \<Rightarrow> False
      | Some sess \<Rightarrow>
          ts_totalTests sess = length (allTests (checklists s)) \<and>
          ts_passedTests sess =
            length (filter (\<lambda>t. ti_status t = Passed) (allTests (checklists s))) \<and>
          ts_failedTests sess =
            length (filter (\<lambda>t. ti_status t = Failed) (allTests (checklists s))) \<and>
          ts_skippedTests sess =
            length (filter (\<lambda>t. ti_status t = Skipped) (allTests (checklists s))))"

text \<open>A call of \<^verbatim>\<open>updateTestStatus\<close> with the clock's reading, and a run of such calls.\<close>

type_synonym statusCall = "string \<times> TestStatus \<times> string option \<times> int"

definition applyCall :: "QAState \<Rightarrow> statusCall \<Rightarrow> QAState" where
  "applyCall s c = (case c of (testId, st, nts, now) \<Rightarrow> updateTestStatus testId st nts now s)"

definition runCalls :: "QAState \<Rightarrow> statusCall list \<Rightarrow> QAState" where
  "runCalls s calls = foldl applyCall s calls"

text \<open>A saved item has a history when its status is not the default, its notes are
  present and not empty, or its timestamp is present and not zero.\<close>

definition hasHistory :: "TestItem \<Rightarrow> bool" where
  "hasHistory s \<longleftrightarrow>
     ti_status s \<noteq> NotStarted \<or> ti_notes s \<notin> {None, Some []} \<or>
     ti_testedAt s \<notin> {None, Some 0}"

text \<open>The saved items with a history for the id \<open>k\<close>, in the order of the document.\<close>

definition history :: "TestChecklist list \<Rightarrow> string \<Rightarrow> TestItem list" where
  "history savedChecklists k =
     filter (\<lambda>s. ti_id s = k \<and> hasHistory s) (allTests savedChecklists)"

definition resultOf :: "TestItem \<Rightarrow> SavedResult" where
  "resultOf item =
     \<lparr>sr_status = ti_status item, sr_notes = ti_notes item, sr_testedAt = ti_testedAt item\<rparr>"

text \<open>
  A typed item and a typed checklist as the blob holds them after a save and a load:
  an absent optional field is an absent property.
\<close>

definition encodeStatus :: "TestStatus \<Rightarrow> json" where
  "encodeStatus st =
     JStr (case st of NotStarted \<Rightarrow> ''not_started'' | Passed \<Rightarrow> ''passed''
           | Failed \<Rightarrow> ''failed'' | Skipped \<Rightarrow> ''skipped'')"

definition encodeCategory :: "Category \<Rightarrow> json" where
  "encodeCategory c =
     JStr (case c of UI \<Rightarrow> ''UI'' | Functionality \<Rightarrow> ''Functionality''
           | Performance \<Rightarrow> ''Performance'' | Integration \<Rightarrow> ''Integration'')"

definition encodeItem :: "TestItem \<Rightarrow> json" where
  "encodeItem item =
     JObj ([(''id'', JStr (ti_id item)), (''screen'', JStr (ti_screen item)),
            (''category'', encodeCategory (ti_category item)),
            (''description'', JStr (ti_description item)),
            (''status'', encodeStatus (ti_status item))]
           @ (case ti_notes item of None \<Rightarrow> [] | Some n \<Rightarrow> [(''notes'', JStr n)])
           @ (case ti_testedAt item of None \<Rightarrow> [] | Some t \<Rightarrow> [(''testedAt'', JNum t)]))"

definition encodeChecklist :: "TestChecklist \<Rightarrow> json" where
  "encodeChecklist c =
     JObj [(''screen'', JStr (cl_screen c)), (''items'', JArr (map encodeItem (cl_items c)))]"

definition encodeResult :: "SavedResult \<Rightarrow> loadedResult" where
  "encodeResult r =
     (Some (encodeStatus (sr_status r)), map_option JStr (sr_notes r),
      map_option JNum (sr_testedAt r))"

text \<open>The map of the blob-level merge holds, at every id, the typed map's result.\<close>

definition sameResults ::
    "(string \<rightharpoonup> SavedResult) \<Rightarrow> (json option \<rightharpoonup> loadedResult) \<Rightarrow> bool" where
  "sameResults m M \<longleftrightarrow> (\<forall>k. M (Some (JStr k)) = map_option encodeResult (m k))"

text \<open>The structural check in the words of the specification: an object with a boolean
  \<^verbatim>\<open>isOpen\<close> and with \<^verbatim>\<open>testSessions\<close>, \<^verbatim>\<open>checklists\<close> and \<^verbatim>\<open>bugs\<close> that are arrays.\<close>

definition wellShaped :: "json \<Rightarrow> bool" where
  "wellShaped v =
     (case v of
        JObj props \<Rightarrow>
          (case map_of props ''isOpen'' of Some (JBool _) \<Rightarrow> True | _ \<Rightarrow> False) \<and>
          (case map_of props ''testSessions'' of Some (JArr _) \<Rightarrow> True | _ \<Rightarrow> False) \<and>
          (case map_of props ''checklists'' of Some (JArr _) \<Rightarrow> True | _ \<Rightarrow> False) \<and>
          (case map_of props ''bugs'' of Some (JArr _) \<Rightarrow> True | _ \<Rightarrow> False)
      | _ \<Rightarrow> False)"

definition newestFirst :: "TestSession list \<Rightarrow> bool" where
  "newestFirst xs = sorted_wrt (\<lambda>a b. ts_startedAt b \<le> ts_startedAt a) xs"

section \<open>Example data\<close>

definition exItem :: "string \<Rightarrow> TestStatus \<Rightarrow> string option \<Rightarrow> int option \<Rightarrow> TestItem" where
  "exItem i st nts at =
     \<lparr>ti_id = i, ti_screen = ''HOME'', ti_category = UI, ti_description = ''Screen loads'',
      ti_status = st, ti_notes = nts, ti_testedAt = at\<rparr>"

definition exChecklist :: "TestItem list \<Rightarrow> TestChecklist" where
  "exChecklist items = \<lparr>cl_screen = ''HOME'', cl_items = items\<rparr>"

definition exSession :: "int \<Rightarrow> nat \<Rightarrow> TestSession" where
  "exSession started n =
     \<lparr>ts_id = ''session_1'', ts_name = ''run'', ts_startedAt = started, ts_completedAt = None,
      ts_totalTests = n, ts_passedTests = 0, ts_failedTests = 0, ts_skippedTests = 0,
      ts_bugsFound = [], ts_notes = None, ts_tester = ''qa''\<rparr>"

definition exBug :: "string \<Rightarrow> BugStatus \<Rightarrow> int option \<Rightarrow> BugReport" where
  "exBug i st fixed =
     \<lparr>bug_id = i, bug_title = ''t'', bug_description = ''d'', bug_severity = Low,
      bug_status = st, bug_screen = ''HOME'', bug_stepsToReproduce = [],
      bug_expectedBehavior = ''e'', bug_actualBehavior = ''a'', bug_screenshot = None,
      bug_consoleErrors = None, bug_sessionMetadata = None, bug_reportedAt = 1,
      bug_reportedBy = ''qa'', bug_fixedAt = fixed, bug_fixedIn = None\<rparr>"

definition exState :: "TestSession option \<Rightarrow> TestItem list \<Rightarrow> BugReport list \<Rightarrow> QAState" where
  "exState cur items bs =
     \<lparr>isOpen = True, currentSession = cur, testSessions = [],
      checklists = [exChecklist items], bugs = bs\<rparr>"

text \<open>A state whose session was started on an empty checklist and that got an item
  afterwards: \<^verbatim>\<open>addTestItem\<close> does not touch the counters.\<close>

definition exStale :: QAState where
  "exStale =
     addTestItem (exItem ''a'' NotStarted None None)
       (startTestSession ''run'' ''qa'' 1 1 (exState None [] []))"

text \<open>A platform for the examples: one stored blob, a parser that knows this blob, a
  serializer that writes the number of sessions only, and a store that has no room for
  the text \<open>12\<close>.\<close>

definition exBlob :: json where
  "exBlob =
     JObj [(''isOpen'', JBool True), (''currentSession'', JNull), (''testSessions'', JArr []),
           (''checklists'', JArr []), (''bugs'', JArr [])]"

definition exGetItem :: "string \<Rightarrow> jsError + string option" where
  "exGetItem k = (if k = ''poli_qa_state'' then Inr (Some ''blob'') else Inr None)"

definition exParse :: "string \<Rightarrow> jsError + json" where
  "exParse text = (if text = ''blob'' then Inr exBlob else Inl SyntaxError)"

definition exStringify :: "QAState \<Rightarrow> jsError + string" where
  "exStringify state = Inr (showNat (length (testSessions state)))"

definition exRefuses :: "(string \<rightharpoonup> string) \<Rightarrow> string \<Rightarrow> string \<Rightarrow> jsError option" where
  "exRefuses store k v = (if v = ''12'' then Some QuotaExceededError else None)"

definition exHistory :: QAState where
  "exHistory =
     \<lparr>isOpen = True, currentSession = None,
      testSessions = map (\<lambda>t. exSession t 0) [3, 12, 1, 8, 5, 10, 2, 7, 11, 4, 9, 6],
      checklists = [], bugs = [exBug ''bug_1'' Open None]\<rparr>"

text \<open>A platform function that agrees with \<^verbatim>\<open>toUpperCase\<close> on texts of ASCII characters:
  it maps each of \<open>a\<close> to \<open>z\<close> to its capital.\<close>

definition asciiToUpperCase :: "string \<Rightarrow> string" where
  "asciiToUpperCase s =
     map (\<lambda>c. case map_of (zip ''abcdefghijklmnopqrstuvwxyz'' ''ABCDEFGHIJKLMNOPQRSTUVWXYZ'') c of
                 Some u \<Rightarrow> u
               | None \<Rightarrow> c) s"






section \<open>Properties of the checklist store\<close>

subsection \<open>Helper facts\<close>

lemma allTests_map_items:
  "allTests (map (\<lambda>c. c\<lparr>cl_items := map f (cl_items c)\<rparr>) cls) = map f (allTests cls)"
  by (induction cls) (simp_all add: allTests_def)

lemma update_in_sync:
  "currentSession s = Some sess \<Longrightarrow> countersInSync (updateTestStatus testId st nts now s)"
  by (simp add: updateTestStatus_def countersInSync_def countStatus_def Let_def)

lemma update_keeps_session:
  "currentSession s \<noteq> None \<Longrightarrow>
     currentSession (updateTestStatus testId st nts now s) \<noteq> None"
  by (auto simp: updateTestStatus_def Let_def)

lemma runCalls_keeps_session:
  "currentSession s \<noteq> None \<Longrightarrow> currentSession (runCalls s calls) \<noteq> None"
proof (induction calls arbitrary: s)
  case Nil
  then show ?case by (simp add: runCalls_def)
next
  case (Cons c calls)
  obtain testId st nts now where c: "c = (testId, st, nts, now)" by (cases c) auto
  have "currentSession (applyCall s c) \<noteq> None"
    using Cons.prems by (simp add: c applyCall_def update_keeps_session)
  then have "currentSession (runCalls (applyCall s c) calls) \<noteq> None" by (rule Cons.IH)
  then show ?case by (simp add: runCalls_def)
qed

lemma map_items_id:
  assumes "\<And>i. i \<in> set (allTests cls) \<Longrightarrow> f i = i"
  shows "map (\<lambda>c. c\<lparr>cl_items := map f (cl_items c)\<rparr>) cls = cls"
proof (rule map_idI)
  fix c assume c: "c \<in> set cls"
  have "map f (cl_items c) = cl_items c"
  proof (rule map_idI)
    fix i assume "i \<in> set (cl_items c)"
    with c have "i \<in> set (allTests cls)" by (auto simp: allTests_def)
    then show "f i = i" by (rule assms)
  qed
  then show "c\<lparr>cl_items := map f (cl_items c)\<rparr> = c" by simp
qed

lemma filter_items_id:
  assumes "\<And>i. i \<in> set (allTests cls) \<Longrightarrow> P i"
  shows "map (\<lambda>c. c\<lparr>cl_items := filter P (cl_items c)\<rparr>) cls = cls"
proof (rule map_idI)
  fix c assume c: "c \<in> set cls"
  have "filter P (cl_items c) = cl_items c"
    using c assms by (auto simp: filter_id_conv allTests_def)
  then show "c\<lparr>cl_items := filter P (cl_items c)\<rparr> = c" by simp
qed

lemma stamp_absent:
  assumes "testId \<notin> ti_id ` set (allTests cls)"
  shows "map (\<lambda>c. c\<lparr>cl_items := map (stampItem testId st nts now) (cl_items c)\<rparr>) cls = cls"
  using assms by (intro map_items_id) (auto simp: stampItem_def)

lemma updateTestStatus_absent:
  assumes "testId \<notin> ti_id ` set (allTests (checklists s))"
  shows "updateTestStatus testId st nts now s =
     s\<lparr>currentSession :=
        (case currentSession s of
           None \<Rightarrow> None
         | Some sess \<Rightarrow>
             Some (sess\<lparr>ts_totalTests := length (allTests (checklists s)),
                        ts_passedTests := countStatus Passed (allTests (checklists s)),
                        ts_failedTests := countStatus Failed (allTests (checklists s)),
                        ts_skippedTests := countStatus Skipped (allTests (checklists s))\<rparr>))\<rparr>"
  by (simp add: updateTestStatus_def Let_def stamp_absent [OF assms] split: option.split)

lemma removeTestItem_absent:
  assumes "testId \<notin> ti_id ` set (allTests (checklists s))"
  shows "removeTestItem testId s = s"
proof -
  have "map (\<lambda>c. c\<lparr>cl_items := filter (\<lambda>item. ti_id item \<noteq> testId) (cl_items c)\<rparr>)
          (checklists s) = checklists s"
    using assms by (intro filter_items_id) auto
  then show ?thesis by (simp add: removeTestItem_def)
qed

lemma updateBugStatus_absent:
  assumes "bugId \<notin> bug_id ` set (bugs s)"
  shows "updateBugStatus bugId st now s = s"
proof -
  have "map (restatus bugId st now) (bugs s) = bugs s"
    using assms by (intro map_idI) (auto simp: restatus_def)
  then show ?thesis by (simp add: updateBugStatus_def)
qed

lemma deleteBug_absent:
  assumes "bugId \<notin> bug_id ` set (bugs s)"
    and "\<And>sess. currentSession s = Some sess \<Longrightarrow> bugId \<notin> set (ts_bugsFound sess)"
  shows "deleteBug bugId s = s"
proof -
  have b: "filter (\<lambda>bug. bug_id bug \<noteq> bugId) (bugs s) = bugs s"
    using assms(1) by (force simp: filter_id_conv)
  have c: "(case currentSession s of
              Some sess \<Rightarrow>
                Some (sess\<lparr>ts_bugsFound := filter (\<lambda>i. i \<noteq> bugId) (ts_bugsFound sess)\<rparr>)
            | None \<Rightarrow> None) = currentSession s"
  proof (cases "currentSession s")
    case None
    then show ?thesis by simp
  next
    case (Some sess)
    from assms(2) [OF Some]
    have "filter (\<lambda>i. i \<noteq> bugId) (ts_bugsFound sess) = ts_bugsFound sess"
      by (force simp: filter_id_conv)
    with Some show ?thesis by simp
  qed
  show ?thesis unfolding deleteBug_def b c by simp
qed

lemma deleteSession_absent:
  assumes "sessionId \<notin> ts_id ` set (testSessions s)"
  shows "deleteSession sessionId s = s"
proof -
  have "filter (\<lambda>session. ts_id session \<noteq> sessionId) (testSessions s) = testSessions s"
    using assms by (force simp: filter_id_conv)
  then show ?thesis by (simp add: deleteSession_def)
qed

lemma updateTestStatus_absent_twice:
  assumes "testId \<notin> ti_id ` set (allTests (checklists s))"
  shows "updateTestStatus testId st nts now2 (updateTestStatus testId st nts now1 s) =
         updateTestStatus testId st nts now1 s"
proof -
  let ?s1 = "updateTestStatus testId st nts now1 s"
  have c: "checklists ?s1 = checklists s"
    by (simp add: updateTestStatus_absent [OF assms])
  then have a: "testId \<notin> ti_id ` set (allTests (checklists ?s1))" using assms by simp
  show ?thesis
    unfolding updateTestStatus_absent [OF a] c
    by (cases "currentSession s") (simp_all add: updateTestStatus_absent [OF assms])
qed

lemma removeTestItem_twice:
  "removeTestItem testId (removeTestItem testId s) = removeTestItem testId s"
  by (simp add: removeTestItem_def comp_def)

lemma deleteBug_twice: "deleteBug bugId (deleteBug bugId s) = deleteBug bugId s"
  by (cases "currentSession s") (simp_all add: deleteBug_def)

lemma deleteSession_twice:
  "deleteSession sessionId (deleteSession sessionId s) = deleteSession sessionId s"
  by (simp add: deleteSession_def)

lemma exStale_value:
  "exStale = exState (Some (exSession 1 0)) [exItem ''a'' NotStarted None None] []"
  by (simp add: exStale_def addTestItem_def startTestSession_def exState_def exChecklist_def
      exItem_def exSession_def allTests_def Let_def showInt_def showNat.simps)

subsection \<open>Session counters\<close>

text \<open>
  C2. In a state with an active session, after each call of a sequence of
  \<^verbatim>\<open>updateTestStatus\<close> calls (that is, after every non-empty prefix of the sequence) the
  session is still active, its \<^verbatim>\<open>totalTests\<close> is the number of items of all checklists,
  and its \<^verbatim>\<open>passedTests\<close>, \<^verbatim>\<open>failedTests\<close> and \<^verbatim>\<open>skippedTests\<close> are the numbers of
  items with status passed, failed and skipped.
\<close>

theorem counters_after_each_call:
  assumes active: "currentSession s \<noteq> None"
    and k: "0 < k" "k \<le> length calls"
  shows "countersInSync (runCalls s (take k calls))"
proof -
  from k have ne: "take k calls \<noteq> []" by auto
  define pre where "pre = butlast (take k calls)"
  define c where "c = last (take k calls)"
  have split: "take k calls = pre @ [c]" using ne by (simp add: pre_def c_def)
  obtain testId st nts now where c: "c = (testId, st, nts, now)" by (cases c) auto
  from runCalls_keeps_session [OF active, of pre]
  obtain sess where "currentSession (runCalls s pre) = Some sess" by auto
  then have "countersInSync (updateTestStatus testId st nts now (runCalls s pre))"
    by (rule update_in_sync)
  then show ?thesis by (simp add: split runCalls_def applyCall_def c)
qed

theorem counters_after_each_call_witness:
  "countersInSync
     (runCalls
        (exState (Some (exSession 1 7))
           [exItem ''a'' NotStarted None None, exItem ''b'' NotStarted None None] [])
        (take 2 [(''a'', Passed, None, 10), (''b'', Failed, Some ''broken'', 11),
                 (''a'', Skipped, None, 12)]))"
  using counters_after_each_call
    [of "exState (Some (exSession 1 7))
           [exItem ''a'' NotStarted None None, exItem ''b'' NotStarted None None] []"
        2
        "[(''a'', Passed, None, 10), (''b'', Failed, Some ''broken'', 11),
          (''a'', Skipped, None, 12)]"]
  by (simp add: exState_def)

subsection \<open>Starting a session\<close>

text \<open>
  C3. After \<^verbatim>\<open>startTestSession(name, tester)\<close> every item of every checklist has status
  \<^verbatim>\<open>not_started\<close> and neither notes nor \<^verbatim>\<open>testedAt\<close>; the number of items is as before;
  and the current session has the counters \<^verbatim>\<open>passedTests\<close>, \<^verbatim>\<open>failedTests\<close> and
  \<^verbatim>\<open>skippedTests\<close> at 0, \<^verbatim>\<open>totalTests\<close> at the number of items of all checklists, no
  bugs found, and the given name and tester (its id is \<^verbatim>\<open>session_\<close> and the clock's
  reading, it starts at the clock's reading, and it has no completion time and no notes).
  The checklists are the checklists of before, in their order, and the items of each are
  its items of before, in their order, each with these three fields reset and every
  other field, the id among them, as it was. \<^verbatim>\<open>isOpen\<close>, the stored sessions and the bugs
  are unchanged.
\<close>

theorem startTestSession_resets:
  "(\<forall>c \<in> set (checklists (startTestSession name tester nowId nowAt prev)).
      \<forall>i \<in> set (cl_items c).
        ti_status i = NotStarted \<and> ti_notes i = None \<and> ti_testedAt i = None) \<and>
   length (allTests (checklists (startTestSession name tester nowId nowAt prev))) =
     length (allTests (checklists prev)) \<and>
   (\<exists>sess. currentSession (startTestSession name tester nowId nowAt prev) = Some sess \<and>
      ts_passedTests sess = 0 \<and> ts_failedTests sess = 0 \<and> ts_skippedTests sess = 0 \<and>
      ts_totalTests sess = length (allTests (checklists prev)) \<and>
      ts_bugsFound sess = [] \<and> ts_name sess = name \<and> ts_tester sess = tester \<and>
      ts_id sess = ''session_'' @ showInt nowId \<and> ts_startedAt sess = nowAt \<and>
      ts_completedAt sess = None \<and> ts_notes sess = None) \<and>
   list_all2
     (\<lambda>c r. r = c\<lparr>cl_items := cl_items r\<rparr> \<and>
        list_all2
          (\<lambda>old new. new = old\<lparr>ti_status := NotStarted, ti_notes := None, ti_testedAt := None\<rparr>)
          (cl_items c) (cl_items r))
     (checklists prev) (checklists (startTestSession name tester nowId nowAt prev)) \<and>
   isOpen (startTestSession name tester nowId nowAt prev) = isOpen prev \<and>
   testSessions (startTestSession name tester nowId nowAt prev) = testSessions prev \<and>
   bugs (startTestSession name tester nowId nowAt prev) = bugs prev"
proof -
  let ?s = "startTestSession name tester nowId nowAt prev"
  have items: "\<forall>c \<in> set (checklists ?s). \<forall>i \<in> set (cl_items c).
        ti_status i = NotStarted \<and> ti_notes i = None \<and> ti_testedAt i = None"
    by (auto simp: startTestSession_def Let_def resetItem_def)
  have len: "length (allTests (checklists ?s)) = length (allTests (checklists prev))"
    by (simp add: startTestSession_def Let_def allTests_map_items)
  have sess: "\<exists>sess. currentSession ?s = Some sess \<and>
      ts_passedTests sess = 0 \<and> ts_failedTests sess = 0 \<and> ts_skippedTests sess = 0 \<and>
      ts_totalTests sess = length (allTests (checklists prev)) \<and>
      ts_bugsFound sess = [] \<and> ts_name sess = name \<and> ts_tester sess = tester \<and>
      ts_id sess = ''session_'' @ showInt nowId \<and> ts_startedAt sess = nowAt \<and>
      ts_completedAt sess = None \<and> ts_notes sess = None"
    by (simp add: startTestSession_def Let_def allTests_map_items)
  have frame: "list_all2
     (\<lambda>c r. r = c\<lparr>cl_items := cl_items r\<rparr> \<and>
        list_all2
          (\<lambda>old new. new = old\<lparr>ti_status := NotStarted, ti_notes := None, ti_testedAt := None\<rparr>)
          (cl_items c) (cl_items r))
     (checklists prev) (checklists ?s)"
    by (simp add: startTestSession_def Let_def list_all2_map2 resetItem_def list.rel_refl_strong)
  have rest: "isOpen ?s = isOpen prev" "testSessions ?s = testSessions prev" "bugs ?s = bugs prev"
    by (simp_all add: startTestSession_def Let_def)
  from items len sess frame rest show ?thesis by blast
qed

theorem startTestSession_resets_witness:
  "checklists (startTestSession ''run'' ''qa'' 5 6
      (exState None [exItem ''a'' Passed (Some ''ok'') (Some 3), exItem ''b'' Failed None (Some 4)]
         [])) =
     [exChecklist [exItem ''a'' NotStarted None None, exItem ''b'' NotStarted None None]] \<and>
   map_option ts_totalTests (currentSession (startTestSession ''run'' ''qa'' 5 6
      (exState None [exItem ''a'' Passed (Some ''ok'') (Some 3), exItem ''b'' Failed None (Some 4)]
         []))) = Some 2"
  using startTestSession_resets [of "''run''" "''qa''" 5 6
      "exState None [exItem ''a'' Passed (Some ''ok'') (Some 3), exItem ''b'' Failed None (Some 4)]
         []"]
  by (simp add: exState_def exChecklist_def exItem_def allTests_def startTestSession_def
      resetItem_def Let_def)

subsection \<open>Bug status\<close>

text \<open>
  C4 (amended). \<^verbatim>\<open>updateBugStatus(bugId, status)\<close> changes nothing but the bugs with
  that id. Each of them gets the given status, and its \<^verbatim>\<open>fixedAt\<close> is set to the current
  time exactly when the given status is \<^verbatim>\<open>fixed\<close>, whatever its status was before (also
  when it was \<^verbatim>\<open>fixed\<close> already); for every other status \<^verbatim>\<open>fixedAt\<close> is left as it
  was. All other fields of the bug, and all other bugs, are unchanged.
\<close>

theorem updateBugStatus_stamps_on_fixed:
  "isOpen (updateBugStatus bugId st now prev) = isOpen prev \<and>
   currentSession (updateBugStatus bugId st now prev) = currentSession prev \<and>
   testSessions (updateBugStatus bugId st now prev) = testSessions prev \<and>
   checklists (updateBugStatus bugId st now prev) = checklists prev \<and>
   list_all2
     (\<lambda>old new.
        if bug_id old = bugId
        then bug_status new = st \<and>
             bug_fixedAt new = (if st = Fixed then Some now else bug_fixedAt old) \<and>
             new = old\<lparr>bug_status := bug_status new, bug_fixedAt := bug_fixedAt new\<rparr>
        else new = old)
     (bugs prev) (bugs (updateBugStatus bugId st now prev))"
  by (simp add: updateBugStatus_def list_all2_map2 restatus_def list.rel_refl_strong)

theorem updateBugStatus_stamps_on_fixed_witness:
  "map bug_status (bugs (updateBugStatus ''bug_1'' Fixed 20
       (exState None [] [exBug ''bug_1'' Open (Some 10), exBug ''bug_2'' Open None]))) =
     [Fixed, Open] \<and>
   map bug_fixedAt (bugs (updateBugStatus ''bug_1'' Fixed 20
       (exState None [] [exBug ''bug_1'' Open (Some 10), exBug ''bug_2'' Open None]))) =
     [Some 20, None]"
  using updateBugStatus_stamps_on_fixed [of "''bug_1''" Fixed 20
      "exState None [] [exBug ''bug_1'' Open (Some 10), exBug ''bug_2'' Open None]"]
  by (simp add: exState_def exBug_def updateBugStatus_def restatus_def)

text \<open>
  The claim as stated fails: a bug that is \<^verbatim>\<open>fixed\<close> with \<^verbatim>\<open>fixedAt\<close> 10 and is set to
  \<^verbatim>\<open>fixed\<close> again at time 20 has \<^verbatim>\<open>fixedAt\<close> 20 afterwards.
\<close>

theorem updateBugStatus_restamps_counterexample:
  "bug_status (exBug ''bug_1'' Fixed (Some 10)) = Fixed \<and>
   bugs (updateBugStatus ''bug_1'' Fixed 20 (exState None [] [exBug ''bug_1'' Fixed (Some 10)])) =
     [exBug ''bug_1'' Fixed (Some 20)] \<and>
   bug_fixedAt (exBug ''bug_1'' Fixed (Some 20)) \<noteq> bug_fixedAt (exBug ''bug_1'' Fixed (Some 10))"
  by (simp add: exState_def exBug_def updateBugStatus_def restatus_def)

subsection \<open>Unknown ids\<close>

text \<open>
  C6 (amended). The operations are total functions of the state: none of them has a
  failing branch. For an id that does not occur in the state (a test id of no item, a bug
  id that is neither the id of a bug nor listed in the current session's \<^verbatim>\<open>bugsFound\<close>, a
  session id of no stored session), \<^verbatim>\<open>removeTestItem\<close>, \<^verbatim>\<open>updateBugStatus\<close>,
  \<^verbatim>\<open>deleteBug\<close> and \<^verbatim>\<open>deleteSession\<close> return the state unchanged. \<^verbatim>\<open>updateTestStatus\<close>
  leaves \<^verbatim>\<open>isOpen\<close>, the checklists, the bugs and the stored sessions unchanged, and
  returns the state unchanged exactly when no session is active or the session's counters
  already agree with the items: with an active session it recomputes the four counters.
  Applying \<^verbatim>\<open>updateTestStatus\<close> or \<^verbatim>\<open>updateBugStatus\<close> with an unknown id a second
  time, at any later reading of the clock, gives the state of the first application;
  \<^verbatim>\<open>removeTestItem\<close>, \<^verbatim>\<open>deleteBug\<close> and \<^verbatim>\<open>deleteSession\<close> are idempotent for every id.
\<close>

theorem unknown_id_operations:
  assumes t: "testId \<notin> ti_id ` set (allTests (checklists s))"
    and b: "bugId \<notin> bug_id ` set (bugs s)"
    and f: "bugId \<notin> set (case currentSession s of None \<Rightarrow> [] | Some sess \<Rightarrow> ts_bugsFound sess)"
    and h: "sessionId \<notin> ts_id ` set (testSessions s)"
  shows "removeTestItem testId s = s \<and>
         updateBugStatus bugId bst now s = s \<and>
         deleteBug bugId s = s \<and>
         deleteSession sessionId s = s \<and>
         (updateTestStatus testId st nts now s = s
            \<longleftrightarrow> currentSession s = None \<or> countersInSync s) \<and>
         isOpen (updateTestStatus testId st nts now s) = isOpen s \<and>
         checklists (updateTestStatus testId st nts now s) = checklists s \<and>
         bugs (updateTestStatus testId st nts now s) = bugs s \<and>
         testSessions (updateTestStatus testId st nts now s) = testSessions s \<and>
         updateTestStatus testId st nts now2 (updateTestStatus testId st nts now s) =
           updateTestStatus testId st nts now s \<and>
         updateBugStatus bugId bst now2 (updateBugStatus bugId bst now s) =
           updateBugStatus bugId bst now s \<and>
         removeTestItem anyTest (removeTestItem anyTest s) = removeTestItem anyTest s \<and>
         deleteBug anyBug (deleteBug anyBug s) = deleteBug anyBug s \<and>
         deleteSession anySession (deleteSession anySession s) = deleteSession anySession s"
proof -
  have f': "\<And>sess. currentSession s = Some sess \<Longrightarrow> bugId \<notin> set (ts_bugsFound sess)"
    using f by simp
  have e: "(s\<lparr>currentSession := x\<rparr> = s) \<longleftrightarrow> x = currentSession s" for x
    by (cases s) auto
  have u: "(updateTestStatus testId st nts now s = s)
      \<longleftrightarrow> currentSession s = None \<or> countersInSync s"
  proof (cases "currentSession s")
    case None
    then show ?thesis by (simp add: updateTestStatus_absent [OF t] e)
  next
    case (Some sess)
    have "(sess\<lparr>ts_totalTests := a, ts_passedTests := p, ts_failedTests := q,
              ts_skippedTests := r\<rparr> = sess)
        \<longleftrightarrow> ts_totalTests sess = a \<and> ts_passedTests sess = p \<and>
            ts_failedTests sess = q \<and> ts_skippedTests sess = r" for a p q r
      by (cases sess) auto
    with Some show ?thesis
      by (simp add: updateTestStatus_absent [OF t] e countersInSync_def countStatus_def)
  qed
  have ub: "updateBugStatus bugId bst x s = s" for x
    using b by (rule updateBugStatus_absent)
  show ?thesis
    using removeTestItem_absent [OF t] ub deleteBug_absent [OF b f']
      deleteSession_absent [OF h] u updateTestStatus_absent_twice [OF t]
      removeTestItem_twice deleteBug_twice deleteSession_twice
    by (simp add: updateTestStatus_absent [OF t])
qed

theorem unknown_id_operations_witness:
  "removeTestItem ''zz'' (exState None [exItem ''a'' Passed None (Some 3)] [exBug ''bug_1'' Open None])
     = exState None [exItem ''a'' Passed None (Some 3)] [exBug ''bug_1'' Open None] \<and>
   updateBugStatus ''bug_9'' Fixed 20
       (exState None [exItem ''a'' Passed None (Some 3)] [exBug ''bug_1'' Open None])
     = exState None [exItem ''a'' Passed None (Some 3)] [exBug ''bug_1'' Open None] \<and>
   deleteBug ''bug_9'' (exState None [exItem ''a'' Passed None (Some 3)] [exBug ''bug_1'' Open None])
     = exState None [exItem ''a'' Passed None (Some 3)] [exBug ''bug_1'' Open None] \<and>
   deleteSession ''session_9''
       (exState None [exItem ''a'' Passed None (Some 3)] [exBug ''bug_1'' Open None])
     = exState None [exItem ''a'' Passed None (Some 3)] [exBug ''bug_1'' Open None] \<and>
   updateTestStatus ''zz'' Failed None 20
       (exState None [exItem ''a'' Passed None (Some 3)] [exBug ''bug_1'' Open None])
     = exState None [exItem ''a'' Passed None (Some 3)] [exBug ''bug_1'' Open None]"
proof -
  let ?s = "exState None [exItem ''a'' Passed None (Some 3)] [exBug ''bug_1'' Open None]"
  have t: "''zz'' \<notin> ti_id ` set (allTests (checklists ?s))"
    by (simp add: exState_def exChecklist_def exItem_def allTests_def)
  have b: "''bug_9'' \<notin> bug_id ` set (bugs ?s)"
    by (simp add: exState_def exBug_def)
  have f: "''bug_9'' \<notin> set (case currentSession ?s of None \<Rightarrow> [] | Some sess \<Rightarrow> ts_bugsFound sess)"
    by (simp add: exState_def)
  have h: "''session_9'' \<notin> ts_id ` set (testSessions ?s)"
    by (simp add: exState_def)
  have n: "currentSession ?s = None" by (simp add: exState_def)
  from unknown_id_operations [OF t b f h, of Fixed 20 Failed None] n
  show ?thesis by simp
qed

text \<open>
  The claim as stated fails for \<^verbatim>\<open>updateTestStatus\<close>: in the state \<open>exStale\<close>, reached by
  starting a session on an empty checklist and adding an item, the session counts 0 tests;
  a call with an id of no item sets the count to 1.
\<close>

theorem updateTestStatus_unknown_id_counterexample:
  "''nope'' \<notin> ti_id ` set (allTests (checklists exStale)) \<and>
   map_option ts_totalTests (currentSession exStale) = Some 0 \<and>
   map_option ts_totalTests (currentSession (updateTestStatus ''nope'' Passed None 5 exStale)) =
     Some 1 \<and>
   updateTestStatus ''nope'' Passed None 5 exStale \<noteq> exStale"
proof -
  have a: "''nope'' \<notin> ti_id ` set (allTests (checklists exStale))"
    by (simp add: exStale_value exState_def exChecklist_def exItem_def allTests_def)
  have b: "map_option ts_totalTests (currentSession exStale) = Some 0"
    by (simp add: exStale_value exState_def exSession_def)
  have c: "map_option ts_totalTests
      (currentSession (updateTestStatus ''nope'' Passed None 5 exStale)) = Some 1"
    by (simp add: exStale_value exState_def exChecklist_def exItem_def exSession_def allTests_def
        updateTestStatus_def stampItem_def Let_def)
  from b c have "updateTestStatus ''nope'' Passed None 5 exStale \<noteq> exStale" by auto
  with a b c show ?thesis by simp
qed

subsection \<open>Reporting and deleting a bug\<close>

text \<open>
  C7 (amended). In a state with no active session, \<^verbatim>\<open>reportBug\<close> gives the new bug the
  id \<^verbatim>\<open>bug_\<close> followed by the clock's reading. \<^verbatim>\<open>reportBug\<close> followed by \<^verbatim>\<open>deleteBug\<close>
  with that id gives back the bugs of before the two calls (and the state of before)
  exactly when no bug of the state had that id already; a bug that has the same id is
  deleted with the new one.
\<close>

theorem report_then_delete_roundtrip:
  assumes "currentSession s = None"
  shows "bug_id (last (bugs (reportBug bug nowId nowAt s))) = newBugId nowId \<and>
    (bugs (deleteBug (newBugId nowId) (reportBug bug nowId nowAt s)) = bugs s
       \<longleftrightarrow> newBugId nowId \<notin> bug_id ` set (bugs s)) \<and>
    (deleteBug (newBugId nowId) (reportBug bug nowId nowAt s) = s
       \<longleftrightarrow> newBugId nowId \<notin> bug_id ` set (bugs s))"
proof -
  have b: "bugs (deleteBug (newBugId nowId) (reportBug bug nowId nowAt s)) =
      filter (\<lambda>b. bug_id b \<noteq> newBugId nowId) (bugs s)"
    by (simp add: deleteBug_def reportBug_def Let_def)
  have f: "(filter (\<lambda>b. bug_id b \<noteq> newBugId nowId) (bugs s) = bugs s)
      \<longleftrightarrow> newBugId nowId \<notin> bug_id ` set (bugs s)"
    by (force simp: filter_id_conv)
  have w: "deleteBug (newBugId nowId) (reportBug bug nowId nowAt s) =
      s\<lparr>bugs := filter (\<lambda>b. bug_id b \<noteq> newBugId nowId) (bugs s)\<rparr>"
    using assms by (simp add: deleteBug_def reportBug_def Let_def)
  have e: "(s\<lparr>bugs := xs\<rparr> = s) \<longleftrightarrow> xs = bugs s" for xs
    by (cases s) auto
  show ?thesis
    by (simp add: b f w e) (simp add: reportBug_def Let_def)
qed

theorem report_then_delete_roundtrip_witness:
  "bugs (deleteBug (newBugId 7) (reportBug (exBug [] Open None) 7 8
      (exState None [] [exBug ''bug_5'' Open None]))) = [exBug ''bug_5'' Open None]"
proof -
  have h: "currentSession (exState None [] [exBug ''bug_5'' Open None]) = None"
    by (simp add: exState_def)
  have n: "newBugId 7 \<notin> bug_id ` set (bugs (exState None [] [exBug ''bug_5'' Open None]))"
    by (simp add: exState_def exBug_def newBugId_def showInt_def showNat.simps)
  from report_then_delete_roundtrip [OF h, of "exBug [] Open None" 7 8] n
  show ?thesis by (simp add: exState_def)
qed

text \<open>
  The claim as stated fails when the clock's reading repeats: the state holds the bug
  \<^verbatim>\<open>bug_5\<close>, a bug reported at time 5 gets the same id, and deleting it deletes both.
\<close>

theorem report_then_delete_collision_counterexample:
  "currentSession (exState None [] [exBug ''bug_5'' Open None]) = None \<and>
   bug_id (last (bugs (reportBug (exBug [] Open None) 5 5
       (exState None [] [exBug ''bug_5'' Open None])))) = ''bug_5'' \<and>
   bugs (deleteBug ''bug_5'' (reportBug (exBug [] Open None) 5 5
       (exState None [] [exBug ''bug_5'' Open None]))) = [] \<and>
   bugs (exState None [] [exBug ''bug_5'' Open None]) \<noteq> []"
  by (simp add: exState_def exBug_def deleteBug_def reportBug_def Let_def newBugId_def
      showInt_def showNat.simps)

subsection \<open>Reconciliation on load\<close>

lemma hasResult_iff: "hasResult s \<longleftrightarrow> hasHistory s"
  by (auto simp: hasResult_def hasHistory_def truthyString_def truthyNumber_def
      split: option.splits)

lemma foldl_recordResult:
  "foldl recordResult m items k =
     (if filter (\<lambda>s. ti_id s = k \<and> hasHistory s) items = [] then m k
      else Some (resultOf (last (filter (\<lambda>s. ti_id s = k \<and> hasHistory s) items))))"
proof (induction items rule: rev_induct)
  case Nil
  then show ?case by simp
next
  case (snoc i items)
  show ?case
  proof (cases "ti_id i = k \<and> hasHistory i")
    case True
    then show ?thesis
      by (simp add: recordResult_def resultOf_def hasResult_iff)
  next
    case False
    then have f: "filter (\<lambda>s. ti_id s = k \<and> hasHistory s) (items @ [i]) =
        filter (\<lambda>s. ti_id s = k \<and> hasHistory s) items"
      by simp
    from False have "foldl recordResult m (items @ [i]) k = foldl recordResult m items k"
      by (auto simp: recordResult_def hasResult_iff)
    then show ?thesis unfolding f by (simp only: snoc.IH)
  qed
qed

lemma savedResults_fold:
  "foldl (\<lambda>m c. foldl recordResult m (cl_items c)) m cls = foldl recordResult m (allTests cls)"
  by (induction cls arbitrary: m) (simp_all add: allTests_def)

lemma savedResults_lookup:
  "savedResults saved k =
     (if history saved k = [] then None else Some (resultOf (last (history saved k))))"
  by (simp add: savedResults_def savedResults_fold foldl_recordResult history_def)

lemma applySaved_spec:
  "applySaved (savedResults saved) d =
     (if history saved (ti_id d) = [] then d
      else d\<lparr>ti_status := ti_status (last (history saved (ti_id d))),
             ti_notes := ti_notes (last (history saved (ti_id d))),
             ti_testedAt := ti_testedAt (last (history saved (ti_id d)))\<rparr>)"
  by (simp add: applySaved_def savedResults_lookup resultOf_def)

text \<open>
  C1 (amended). \<^verbatim>\<open>mergeChecklists\<close> returns the new collection, checklist by checklist
  and item by item. An item whose id occurs in the saved collection on an item with a
  history (a status other than \<^verbatim>\<open>not_started\<close>, notes that are not empty, or a
  \<^verbatim>\<open>testedAt\<close> that is not zero) gets the status, notes and \<^verbatim>\<open>testedAt\<close> of the last
  such saved item (the only one when the saved ids are unique) and keeps its other fields.
  Every other item is returned exactly as supplied. The ids of the result are the ids of
  the new collection, in the same order: an id of the saved collection only does not
  appear.
\<close>

theorem mergeChecklists_carries_results:
  "list_all2
     (\<lambda>c r. r = c\<lparr>cl_items := cl_items r\<rparr> \<and>
        list_all2
          (\<lambda>d e. if history saved (ti_id d) = [] then e = d
                 else e = d\<lparr>ti_status := ti_status (last (history saved (ti_id d))),
                            ti_notes := ti_notes (last (history saved (ti_id d))),
                            ti_testedAt := ti_testedAt (last (history saved (ti_id d)))\<rparr>)
          (cl_items c) (cl_items r))
     defaults (mergeChecklists saved defaults) \<and>
   map ti_id (allTests (mergeChecklists saved defaults)) = map ti_id (allTests defaults)"
proof -
  have ids: "ti_id (applySaved (savedResults saved) d) = ti_id d" for d
    by (simp add: applySaved_spec)
  have "map ti_id (allTests (mergeChecklists saved defaults)) = map ti_id (allTests defaults)"
    by (simp add: mergeChecklists_def allTests_map_items comp_def ids)
  moreover have "list_all2
     (\<lambda>c r. r = c\<lparr>cl_items := cl_items r\<rparr> \<and>
        list_all2
          (\<lambda>d e. if history saved (ti_id d) = [] then e = d
                 else e = d\<lparr>ti_status := ti_status (last (history saved (ti_id d))),
                            ti_notes := ti_notes (last (history saved (ti_id d))),
                            ti_testedAt := ti_testedAt (last (history saved (ti_id d)))\<rparr>)
          (cl_items c) (cl_items r))
     defaults (mergeChecklists saved defaults)"
    by (simp add: mergeChecklists_def list_all2_map2 applySaved_spec list.rel_refl_strong)
  ultimately show ?thesis by simp
qed

theorem mergeChecklists_carries_results_witness:
  "mergeChecklists
     [exChecklist [exItem ''a'' Passed (Some ''ok'') (Some 3), exItem ''gone'' Failed None (Some 4)]]
     [exChecklist [exItem ''a'' NotStarted None None, exItem ''new'' NotStarted None None]] =
     [exChecklist [exItem ''a'' Passed (Some ''ok'') (Some 3), exItem ''new'' NotStarted None None]]"
  using mergeChecklists_carries_results
    [of "[exChecklist [exItem ''a'' Passed (Some ''ok'') (Some 3),
                       exItem ''gone'' Failed None (Some 4)]]"
        "[exChecklist [exItem ''a'' NotStarted None None, exItem ''new'' NotStarted None None]]"]
  by (simp add: history_def hasHistory_def allTests_def exChecklist_def exItem_def
      list_all2_Cons1) metis

text \<open>
  The claim as stated fails for a saved item whose only history is the timestamp 0: it
  has a \<^verbatim>\<open>testedAt\<close>, and the new item of the same id is returned as supplied, without
  it.
\<close>

theorem mergeChecklists_zero_timestamp_counterexample:
  "ti_id (exItem ''a'' NotStarted None (Some 0)) = ti_id (exItem ''a'' NotStarted None None) \<and>
   ti_testedAt (exItem ''a'' NotStarted None (Some 0)) = Some 0 \<and>
   map ti_testedAt (allTests (mergeChecklists
      [exChecklist [exItem ''a'' NotStarted None (Some 0)]]
      [exChecklist [exItem ''a'' NotStarted None None]])) = [None]"
  by (simp add: mergeChecklists_def savedResults_def recordResult_def hasResult_def
      truthyString_def truthyNumber_def applySaved_def allTests_def exChecklist_def exItem_def)

section \<open>Properties of the screen names\<close>

lemma documented_screen_names:
  "routePathToScreenName asciiToUpperCase ''/dashboard'' = ''DASHBOARD''"
  "routePathToScreenName asciiToUpperCase ''/user-profile'' = ''USER_PROFILE''"
  "routePathToScreenName asciiToUpperCase ''/users/:id'' = ''USERS_DETAIL''"
  by (simp_all add: routePathToScreenName_def asciiToUpperCase_def replaceChar_def
      stripLeadingSlash_def startsDynamic_def isWordChar_def)

text \<open>
  C5. The derivation is not idempotent at the route path \<^verbatim>\<open>/:id\<close>, the path that the scan
  of a pages directory gives the file \<^verbatim>\<open>[id].tsx\<close>. Whatever \<^verbatim>\<open>toUpperCase\<close> does
  elsewhere, given that it maps \<^verbatim>\<open>:id\<close> to \<^verbatim>\<open>:ID\<close> and leaves \<^verbatim>\<open>:ID_DETAIL\<close> as it is, the
  name of \<^verbatim>\<open>/:id\<close> is \<^verbatim>\<open>:ID_DETAIL\<close> and the name derived from that name is
  \<^verbatim>\<open>:ID_DETAIL_DETAIL\<close>. The leading slash is removed first, so the pattern of a dynamic
  segment, which begins with a slash, finds nothing to remove, and the colon stays.
\<close>

theorem screen_name_of_leading_dynamic_segment:
  assumes "toUpperCase '':id'' = '':ID''"
    and "toUpperCase '':ID_DETAIL'' = '':ID_DETAIL''"
  shows "routePathToScreenName toUpperCase ''/:id'' = '':ID_DETAIL'' \<and>
         routePathToScreenName toUpperCase (routePathToScreenName toUpperCase ''/:id'') =
           '':ID_DETAIL_DETAIL'' \<and>
         routePathToScreenName toUpperCase (routePathToScreenName toUpperCase ''/:id'') \<noteq>
           routePathToScreenName toUpperCase ''/:id''"
proof -
  have first: "routePathToScreenName toUpperCase ''/:id'' = '':ID_DETAIL''"
    using assms(1)
    by (simp add: routePathToScreenName_def replaceChar_def stripLeadingSlash_def
        startsDynamic_def isWordChar_def)
  have second: "routePathToScreenName toUpperCase '':ID_DETAIL'' = '':ID_DETAIL_DETAIL''"
    using assms(2)
    by (simp add: routePathToScreenName_def replaceChar_def stripLeadingSlash_def
        startsDynamic_def isWordChar_def)
  show ?thesis by (simp add: first second)
qed

theorem screen_name_of_leading_dynamic_segment_witness:
  "routePathToScreenName asciiToUpperCase ''/:id'' = '':ID_DETAIL'' \<and>
   routePathToScreenName asciiToUpperCase (routePathToScreenName asciiToUpperCase ''/:id'') =
     '':ID_DETAIL_DETAIL''"
proof -
  have a: "asciiToUpperCase '':id'' = '':ID''" by (simp add: asciiToUpperCase_def)
  have b: "asciiToUpperCase '':ID_DETAIL'' = '':ID_DETAIL''" by (simp add: asciiToUpperCase_def)
  from screen_name_of_leading_dynamic_segment [OF a b] show ?thesis by blast
qed

section \<open>Properties of the persistence adapter\<close>

lemma validStructure_wellShaped:
  "validStructure v = (if v = JNull then Inl TypeError else Inr (wellShaped v))"
  by (cases v)
    (auto simp: validStructure_def wellShaped_def typeofObject_def getProp_def isBoolean_def
      isArray_def split: option.splits json.splits)

text \<open>
  C8. \<^verbatim>\<open>loadQAState\<close> never throws: whatever the store answers and whatever the parser
  does, it returns a value. Given that the parser rejects the empty text, as
  \<^verbatim>\<open>JSON.parse\<close> does, it returns the parsed value exactly when a blob is stored under
  the key, the blob parses, and the parsed value is an object with a boolean \<^verbatim>\<open>isOpen\<close>
  and with \<^verbatim>\<open>testSessions\<close>, \<^verbatim>\<open>checklists\<close> and \<^verbatim>\<open>bugs\<close> that are arrays; it returns
  \<^verbatim>\<open>null\<close> in every other case: a failing store, no blob, a text that does not parse,
  a value of another shape.
\<close>

theorem loadQAState_total:
  assumes "isl (parse [])"
  shows "loadQAState getItem parse storageKey =
     Inr (case getItem storageKey of
            Inr (Some stored) \<Rightarrow>
              (case parse stored of
                 Inr parsed \<Rightarrow> if wellShaped parsed then Some parsed else None
               | Inl err \<Rightarrow> None)
          | _ \<Rightarrow> None)"
proof (cases "getItem storageKey")
  case (Inl err)
  then show ?thesis by (simp add: loadQAState_def loadQAState_try_def)
next
  case (Inr blob)
  show ?thesis
  proof (cases blob)
    case None
    with Inr show ?thesis by (simp add: loadQAState_def loadQAState_try_def)
  next
    case (Some stored)
    show ?thesis
    proof (cases "stored = []")
      case True
      with assms obtain err where "parse stored = Inl err" by (cases "parse []") auto
      with True Inr Some show ?thesis by (simp add: loadQAState_def loadQAState_try_def)
    next
      case False
      show ?thesis
      proof (cases "parse stored")
        case (Inl err)
        with False Inr Some show ?thesis by (simp add: loadQAState_def loadQAState_try_def)
      next
        case parsed: (Inr v)
        have "wellShaped JNull = False" by (simp add: wellShaped_def)
        with False Inr Some parsed show ?thesis
          by (simp add: loadQAState_def loadQAState_try_def validStructure_wellShaped)
      qed
    qed
  qed
qed

theorem loadQAState_total_witness:
  "loadQAState exGetItem exParse ''poli_qa_state'' = Inr (Some exBlob) \<and>
   loadQAState exGetItem exParse ''other_key'' = Inr None"
proof -
  have p: "isl (exParse [])" by (simp add: exParse_def)
  have w: "wellShaped exBlob" by (simp add: wellShaped_def exBlob_def)
  from loadQAState_total
      [where parse = exParse and getItem = exGetItem and storageKey = "''poli_qa_state''", OF p]
    loadQAState_total
      [where parse = exParse and getItem = exGetItem and storageKey = "''other_key''", OF p] w
  show ?thesis by (simp add: exGetItem_def exParse_def)
qed

lemma sorted_desc:
  "sorted_wrt (\<lambda>a b. ts_startedAt b \<le> ts_startedAt a) (sort_key (\<lambda>s. - ts_startedAt s) xs)"
proof -
  have "sorted (map (\<lambda>s. - ts_startedAt s) (sort_key (\<lambda>s. - ts_startedAt s) xs))"
    by (rule sorted_sort_key)
  then show ?thesis by (simp add: sorted_map sorted_wrt_iff_nth_less)
qed

lemma kept_dominate_dropped:
  assumes "sorted_wrt P ys" "k \<in> set (take n ys)" "d \<in> set (drop n ys)"
  shows "P k d"
proof -
  have "sorted_wrt P (take n ys @ drop n ys)" using assms(1) by simp
  then show ?thesis using assms(2,3) unfolding sorted_wrt_append by blast
qed

lemma cleaned_sessions:
  "testSessions (cleanedState state) =
     take 10 (sort_key (\<lambda>s. - ts_startedAt s) (testSessions state))"
  by (simp add: cleanedState_def Let_def)

text \<open>
  C9. When the first write of \<^verbatim>\<open>saveQAState\<close> is refused for lack of room, the retry
  writes the serialization of the cleaned state, and the store is left as it was when
  the retry fails too. The cleaned state has the \<^verbatim>\<open>isOpen\<close>, current session, checklists
  and bugs of the original. Its sessions are ordered by \<^verbatim>\<open>startedAt\<close>, newest first;
  they are 10, or all when the original has fewer; they are sessions of the original,
  each as often as it is kept; every session left out started no later than every
  session kept; and with 10 sessions or fewer none is left out.
\<close>

theorem quota_retry_trims_sessions:
  assumes ser: "stringify state = Inr serialized"
    and quota: "refuses store storageKey serialized = Some QuotaExceededError"
  shows "saveQAState stringify refuses store state storageKey =
           (case stringify (cleanedState state) of
              Inl err \<Rightarrow> store
            | Inr retried \<Rightarrow>
                if refuses store storageKey retried = None
                then store(storageKey \<mapsto> retried) else store) \<and>
         isOpen (cleanedState state) = isOpen state \<and>
         currentSession (cleanedState state) = currentSession state \<and>
         checklists (cleanedState state) = checklists state \<and>
         bugs (cleanedState state) = bugs state \<and>
         newestFirst (testSessions (cleanedState state)) \<and>
         length (testSessions (cleanedState state)) = min 10 (length (testSessions state)) \<and>
         mset (testSessions (cleanedState state)) \<subseteq># mset (testSessions state) \<and>
         (\<forall>k \<in># mset (testSessions (cleanedState state)).
            \<forall>d \<in># mset (testSessions state) - mset (testSessions (cleanedState state)).
              ts_startedAt d \<le> ts_startedAt k) \<and>
         (length (testSessions state) \<le> 10 \<longrightarrow>
            mset (testSessions (cleanedState state)) = mset (testSessions state))"
proof -
  let ?sorted = "sort_key (\<lambda>s. - ts_startedAt s) (testSessions state)"
  let ?kept = "testSessions (cleanedState state)"
  have kept: "?kept = take 10 ?sorted" by (rule cleaned_sessions)
  have ms: "mset ?sorted = mset (testSessions state)" by simp
  have split: "mset (take 10 ?sorted) + mset (drop 10 ?sorted) = mset (testSessions state)"
    by (metis append_take_drop_id mset_append ms)
  have save: "saveQAState stringify refuses store state storageKey =
           (case stringify (cleanedState state) of
              Inl err \<Rightarrow> store
            | Inr retried \<Rightarrow>
                if refuses store storageKey retried = None
                then store(storageKey \<mapsto> retried) else store)"
    using ser quota
    by (auto simp: saveQAState_def Let_def setItem_def clearOldSessions_def
        split: sum.splits option.splits)
  have frame: "isOpen (cleanedState state) = isOpen state"
    "currentSession (cleanedState state) = currentSession state"
    "checklists (cleanedState state) = checklists state"
    "bugs (cleanedState state) = bugs state"
    by (simp_all add: cleanedState_def Let_def)
  have desc: "newestFirst ?kept"
    unfolding kept newestFirst_def using sorted_desc by (rule sorted_wrt_take)
  have len: "length ?kept = min 10 (length (testSessions state))"
    unfolding kept by simp
  have sub: "mset ?kept \<subseteq># mset (testSessions state)"
    unfolding kept using split by (metis mset_subset_eq_add_left)
  have rest: "mset (testSessions state) - mset ?kept = mset (drop 10 ?sorted)"
    unfolding kept using split by (metis add_diff_cancel_left')
  have dom: "\<forall>k \<in># mset ?kept. \<forall>d \<in># mset (testSessions state) - mset ?kept.
      ts_startedAt d \<le> ts_startedAt k"
    unfolding rest unfolding kept
    using kept_dominate_dropped [OF sorted_desc, of _ 10 "testSessions state"] by auto
  have all: "length (testSessions state) \<le> 10 \<longrightarrow> mset ?kept = mset (testSessions state)"
    unfolding kept by simp
  from save frame desc len sub dom all show ?thesis by blast
qed

lemma exHistory_cleaned:
  "map ts_startedAt (testSessions (cleanedState exHistory)) = [12, 11, 10, 9, 8, 7, 6, 5, 4, 3]"
  by (simp add: cleanedState_def exHistory_def exSession_def Let_def)

theorem quota_retry_trims_sessions_witness:
  "saveQAState exStringify exRefuses Map.empty exHistory ''poli_qa_state'' =
     [''poli_qa_state'' \<mapsto> ''10''] \<and>
   map ts_startedAt (testSessions exHistory) = [3, 12, 1, 8, 5, 10, 2, 7, 11, 4, 9, 6] \<and>
   map ts_startedAt (testSessions (cleanedState exHistory)) = [12, 11, 10, 9, 8, 7, 6, 5, 4, 3]"
proof -
  have s: "exStringify exHistory = Inr ''12''"
    by (simp add: exStringify_def exHistory_def showNat.simps)
  have q: "exRefuses Map.empty ''poli_qa_state'' ''12'' = Some QuotaExceededError"
    by (simp add: exRefuses_def)
  have l: "length (testSessions (cleanedState exHistory)) = 10"
    using arg_cong [OF exHistory_cleaned, of length] by simp
  have c: "exStringify (cleanedState exHistory) = Inr ''10''"
    by (simp add: exStringify_def l showNat.simps)
  have o: "map ts_startedAt (testSessions exHistory) = [3, 12, 1, 8, 5, 10, 2, 7, 11, 4, 9, 6]"
    by (simp add: exHistory_def exSession_def)
  from quota_retry_trims_sessions
      [where stringify = exStringify and state = exHistory and serialized = "''12''"
         and refuses = exRefuses and store = Map.empty and storageKey = "''poli_qa_state''",
       OF s q]
    c exHistory_cleaned o
  show ?thesis by (simp add: exRefuses_def)
qed

section \<open>Properties of the initial state\<close>

subsection \<open>The merge on a blob that holds typed checklists\<close>

lemma encodeItem_props:
  "propOf (encodeItem i) ''id'' = Some (JStr (ti_id i))"
  "propOf (encodeItem i) ''status'' = Some (encodeStatus (ti_status i))"
  "propOf (encodeItem i) ''notes'' = map_option JStr (ti_notes i)"
  "propOf (encodeItem i) ''testedAt'' = map_option JNum (ti_testedAt i)"
  by (simp_all add: propOf_def encodeItem_def split: option.split)

lemma encodeItem_hasResult:
  "(encodeStatus (ti_status i) \<noteq> JStr ''not_started'' \<or> truthy (map_option JStr (ti_notes i)) \<or>
    truthy (map_option JNum (ti_testedAt i))) \<longleftrightarrow> hasResult i"
  by (cases "ti_status i")
    (auto simp: encodeStatus_def hasResult_def truthy_def truthyString_def truthyNumber_def
      split: option.splits)

lemma recordLoadedItem_encoded:
  "recordLoadedItem M (encodeItem i) =
     Inr (if hasResult i then M(Some (JStr (ti_id i)) \<mapsto> encodeResult (resultOf i)) else M)"
proof -
  have "encodeItem i \<noteq> JNull" by (simp add: encodeItem_def)
  then show ?thesis
    using encodeItem_hasResult [of i]
    by (simp add: recordLoadedItem_def encodeItem_props encodeResult_def resultOf_def)
qed

lemma sameResults_step:
  assumes "sameResults m M"
  shows "sameResults (recordResult m i)
           (if hasResult i then M(Some (JStr (ti_id i)) \<mapsto> encodeResult (resultOf i)) else M)"
  using assms by (auto simp: sameResults_def recordResult_def resultOf_def)

lemma recordLoadedItems_encoded:
  assumes "sameResults m M"
  shows "\<exists>M'. recordLoadedItems M (map encodeItem items) = Inr M' \<and>
               sameResults (foldl recordResult m items) M'"
  using assms
proof (induction items arbitrary: m M)
  case Nil
  then show ?case by simp
next
  case (Cons i items)
  from Cons.IH [OF sameResults_step [OF Cons.prems, of i]]
  show ?case by (simp add: recordLoadedItem_encoded)
qed

lemma recordLoadedChecklists_encoded:
  assumes "sameResults m M"
  shows "\<exists>M'. recordLoadedChecklists M (map encodeChecklist saved) = Inr M' \<and>
               sameResults (foldl (\<lambda>m c. foldl recordResult m (cl_items c)) m saved) M'"
  using assms
proof (induction saved arbitrary: m M)
  case Nil
  then show ?case by simp
next
  case (Cons c saved)
  from recordLoadedItems_encoded [OF Cons.prems, of "cl_items c"]
  obtain M1 where r: "recordLoadedItems M (map encodeItem (cl_items c)) = Inr M1"
    and s: "sameResults (foldl recordResult m (cl_items c)) M1"
    by blast
  have "recordLoadedChecklist M (encodeChecklist c) = Inr M1"
    by (simp add: recordLoadedChecklist_def encodeChecklist_def propOf_def r)
  with Cons.IH [OF s] show ?case by simp
qed

lemma mergeLoadedChecklists_encoded:
  "mergeLoadedChecklists (map encodeChecklist saved) defaults =
     Inr (map (\<lambda>c. \<lparr>mc_screen = cl_screen c,
                    mc_items =
                      map (\<lambda>d. case savedResults saved (ti_id d) of
                                  None \<Rightarrow> Supplied d
                                | Some r \<Rightarrow>
                                    Overlaid d (Some (encodeStatus (sr_status r)))
                                      (map_option JStr (sr_notes r))
                                      (map_option JNum (sr_testedAt r)))
                        (cl_items c)\<rparr>)
            defaults)"
proof -
  have "sameResults Map.empty Map.empty" by (simp add: sameResults_def)
  from recordLoadedChecklists_encoded [OF this, of saved]
  obtain M where r: "recordLoadedChecklists Map.empty (map encodeChecklist saved) = Inr M"
    and s: "sameResults (savedResults saved) M"
    by (auto simp: savedResults_def)
  have "overlay M d =
      (case savedResults saved (ti_id d) of
         None \<Rightarrow> Supplied d
       | Some r \<Rightarrow>
           Overlaid d (Some (encodeStatus (sr_status r))) (map_option JStr (sr_notes r))
             (map_option JNum (sr_testedAt r)))" for d
    using s by (simp add: overlay_def sameResults_def encodeResult_def split: option.split)
  then show ?thesis by (simp add: mergeLoadedChecklists_def r)
qed

lemma mergeLoadedChecklists_malformed:
  "mergeLoadedChecklists [JNum 1] defaults = Inl TypeError"
  "mergeLoadedChecklists [JObj [(''screen'', JStr ''HOME''), (''items'', JArr [JNull])]] defaults =
     Inl TypeError"
  by (simp_all add: mergeLoadedChecklists_def recordLoadedChecklist_def recordLoadedItem_def
      propOf_def)

subsection \<open>The initial state of the provider\<close>









end
